theory Spec2Isabelle
  imports Main "HOL-Library.Word"
begin

unbundle bit_operations_syntax

section \<open>Data model\<close>

type_synonym u8 = "8 word"
type_synonym u32 = "32 word"
type_synonym u64 = "64 word"

text \<open>
  The source indexes raw C arrays. A byte array is a list here, and an access outside
  the array (undefined behaviour in the source) is the value \<open>Inl OutOfBounds\<close>.
\<close>

datatype fault = OutOfBounds

text \<open>
  Modelled from the spec: the bus collaborator's types are declared outside the sources.
  The error status is an enumeration with \<open>NO_ERROR\<close> and further values; a frame carries
  an identifier, a data length, a remote/data flag and eight data bytes.
\<close>

datatype CANError = CAN_NO_ERROR | CAN_ERROR nat

record CANMessage =
  msg_id :: u32
  msg_rtr :: bool
  msg_len :: u8
  msg_data :: "u8 list"

text \<open>
  Modelled from the spec: a freshly declared frame (\<open>CANMessage message;\<close>) has
  identifier 0, length 0, the data flag and eight zero bytes.
\<close>

definition CANMessage_new :: CANMessage where
  "CANMessage_new = \<lparr>msg_id = 0, msg_rtr = False, msg_len = 0, msg_data = replicate 8 0\<rparr>"

text \<open>
  Modelled from the spec: can-telemetry.h, which defines the two mode constants, is not
  among the sources. They are two distinct integer codes; \<open>poll\<close> compares its
  \<open>int mode\<close> with \<open>CALL_AND_RESP\<close> only.
\<close>

definition CALL_AND_RESP :: int where
  "CALL_AND_RESP = 0"

definition PASSIVE_POLL :: int where
  "PASSIVE_POLL = 1"

text \<open>
  The fields of the \<open>CANTelemetry\<close> object (the channel pointer is the bus state
  below). \<open>_timeout\<close> is an \<open>unsigned long\<close> compared with differences of
  \<open>millis()\<close>: 32 bits on the target, where the subtraction wraps around.
\<close>

record CANTelemetry =
  baud_rate :: int
  node_id :: int
  timeout :: u32
  debug :: bool

subsection \<open>The bus\<close>

text \<open>
  Every call on the channel is logged in \<open>trace\<close>, in order; \<open>filters\<close> is the list of
  acceptance filters \<open>(id, mask)\<close> installed at the moment.
\<close>

datatype bus_op =
    ClearFilters
  | AddFilter u32 u32
  | Transmit CANMessage
  | ErrorStatus
  | Receive

record bus =
  filters :: "(u32 \<times> u32) list"
  trace :: "bus_op list"

text \<open>
  What the outside world answers during one call of \<open>poll\<close>: the error status read by
  \<open>errorStatus()\<close>, the result of the \<open>k\<close>-th call of \<open>receive\<close> (\<open>None\<close>: no frame
  available) and the value of the \<open>k\<close>-th call of \<open>millis()\<close>, both counted from 0.
\<close>

record env =
  err_status :: CANError
  rx :: "nat \<Rightarrow> CANMessage option"
  clock :: "nat \<Rightarrow> u32"

text \<open>
  Modelled from the spec: the operations of the bus collaborator (section 6), which is
  not part of the sources. \<open>clearFilters\<close> removes all filters, \<open>addFilter\<close> installs
  one, \<open>transmit\<close> sends a frame, \<open>receive\<close> is non-blocking, \<open>errorStatus\<close> reads the
  error state.
\<close>

definition clearFilters :: "bus \<Rightarrow> bus" where
  "clearFilters b = b\<lparr>filters := [], trace := trace b @ [ClearFilters]\<rparr>"

definition addFilter :: "u32 \<Rightarrow> u32 \<Rightarrow> bus \<Rightarrow> bus" where
  "addFilter i m b = b\<lparr>filters := filters b @ [(i, m)], trace := trace b @ [AddFilter i m]\<rparr>"

definition transmit :: "CANMessage \<Rightarrow> bus \<Rightarrow> bus" where
  "transmit m b = b\<lparr>trace := trace b @ [Transmit m]\<rparr>"

definition errorStatus :: "env \<Rightarrow> bus \<Rightarrow> CANError \<times> bus" where
  "errorStatus e b = (err_status e, b\<lparr>trace := trace b @ [ErrorStatus]\<rparr>)"

definition receive :: "env \<Rightarrow> nat \<Rightarrow> bus \<Rightarrow> CANMessage option \<times> bus" where
  "receive e k b = (rx e k, b\<lparr>trace := trace b @ [Receive]\<rparr>)"

definition millis :: "env \<Rightarrow> nat \<Rightarrow> u32" where
  "millis e k = clock e k"

section \<open>The operations of can-telemetry.cpp\<close>

text \<open>\<open>_set_mask(int mask)\<close>: clear, then install the one filter \<open>(mask, 0x7FF)\<close>.\<close>

definition set_mask :: "int \<Rightarrow> bus \<Rightarrow> bus" where
  "set_mask mask_id b = addFilter (word_of_int mask_id) 0x7FF (clearFilters b)"

text \<open>\<open>_set_mask()\<close>: the same with the node identifier.\<close>

definition set_mask_default :: "CANTelemetry \<Rightarrow> bus \<Rightarrow> bus" where
  "set_mask_default t b = set_mask (node_id t) b"

text \<open>
  The loop \<open>for (int i = 0; i < len; i++) dst[i] = src[i];\<close> of \<open>poll\<close> and
  \<open>_decode\<close>, started at \<open>i\<close>.
\<close>

function copy_bytes :: "u8 list \<Rightarrow> u8 list \<Rightarrow> int \<Rightarrow> int \<Rightarrow> fault + u8 list" where
  "copy_bytes dst src i len =
     (if i < len then
        (if 0 \<le> i \<and> nat i < length src \<and> nat i < length dst
         then copy_bytes (dst[nat i := src ! nat i]) src (i + 1) len
         else Inl OutOfBounds)
      else Inr dst)"
  by pat_completeness auto
termination
  by (relation "measure (\<lambda>(dst, src, i, len). nat (len - i))") auto

declare copy_bytes.simps [simp del]

text \<open>
  \<open>*(uint64_t *)n\<close> on the eight-byte buffer: the target is little-endian, the byte at
  the lowest address is the least significant.
\<close>

fun load_u64 :: "u8 list \<Rightarrow> u64" where
  "load_u64 [] = 0"
| "load_u64 (b # bs) = ucast b OR push_bit 8 (load_u64 bs)"

definition decode :: "u8 list \<Rightarrow> int \<Rightarrow> fault + u64" where
  "decode arr len =
     (case copy_bytes (replicate 8 0) arr 0 len of
        Inl f \<Rightarrow> Inl f
      | Inr n \<Rightarrow> Inr (load_u64 n))"

text \<open>\<open>return -1\<close> from a function returning \<open>uint64_t\<close>.\<close>

definition sentinel :: u64 where
  "sentinel = - 1"

text \<open>
  The frame built in the \<open>CALL_AND_RESP\<close> branch of \<open>poll\<close>; \<open>message.len\<close> is a byte,
  so the \<open>int\<close> is truncated.
\<close>

definition build_message :: "u32 \<Rightarrow> bool \<Rightarrow> u8 list \<Rightarrow> int \<Rightarrow> fault + CANMessage" where
  "build_message header frame payload len =
     (let message = CANMessage_new\<lparr>msg_id := header, msg_len := word_of_int len, msg_rtr := frame\<rparr>
      in case copy_bytes (msg_data message) payload 0 len of
           Inl f \<Rightarrow> Inl f
         | Inr d \<Rightarrow> Inr (message\<lparr>msg_data := d\<rparr>))"

text \<open>
  The \<open>while (true)\<close> loop of \<open>poll\<close>, in its iteration \<open>k\<close> (counted from 0): one
  \<open>receive\<close>, then one reading of the clock. It need not end, so its result is an option
  and \<open>None\<close> stands for a loop that runs forever.
\<close>

partial_function (option) wait_loop ::
  "env \<Rightarrow> CANTelemetry \<Rightarrow> u32 \<Rightarrow> nat \<Rightarrow> bus \<Rightarrow> ((fault + u64) \<times> bus) option" where
  "wait_loop e t t_stamp k b =
     (case receive e k b of
        (Some response, b1) \<Rightarrow>
          Some (decode (msg_data response) (uint (msg_len response)), set_mask_default t b1)
      | (None, b1) \<Rightarrow>
          if millis e (Suc k) - t_stamp \<ge> timeout t
          then Some (Inr sentinel, set_mask_default t b1)
          else wait_loop e t t_stamp (Suc k) b1)"

declare wait_loop.simps [code]

text \<open>
  \<open>poll(header, filter, mode, frame, payload, len)\<close>. The result is the returned value
  (or the fault) with the bus as the call leaves it.
\<close>

definition poll ::
  "env \<Rightarrow> CANTelemetry \<Rightarrow> u32 \<Rightarrow> u32 \<Rightarrow> int \<Rightarrow> bool \<Rightarrow> u8 list \<Rightarrow> int \<Rightarrow> bus
     \<Rightarrow> ((fault + u64) \<times> bus) option" where
  "poll e t header filter_id mode frame payload len b =
     (if len > 8 then Some (Inr sentinel, b)
      else
        let b1 = set_mask (sint filter_id) b
        in case (if mode = CALL_AND_RESP
                 then (case build_message header frame payload len of
                         Inl f \<Rightarrow> Inl f
                       | Inr message \<Rightarrow> Inr (transmit message b1))
                 else Inr b1) of
             Inl f \<Rightarrow> Some (Inl f, b1)
           | Inr b2 \<Rightarrow>
               (case errorStatus e b2 of
                  (status, b3) \<Rightarrow>
                    if status = CAN_NO_ERROR
                    then wait_loop e t (millis e 0) 0 b3
                    else Some (Inr sentinel,
                           set_mask_default t
                             (transmit (CANMessage_new\<lparr>msg_id := word_of_int (node_id t)\<rparr>) b3))))"

text \<open>The overload \<open>poll(header, mode, frame, payload, len)\<close>.\<close>

definition poll_overload ::
  "env \<Rightarrow> CANTelemetry \<Rightarrow> u32 \<Rightarrow> int \<Rightarrow> bool \<Rightarrow> u8 list \<Rightarrow> int \<Rightarrow> bus
     \<Rightarrow> ((fault + u64) \<times> bus) option" where
  "poll_overload e t header mode frame payload len b =
     poll e t header header mode frame payload len b"

section \<open>Reference values and example inputs\<close>

text \<open>
  The value the spec gives to a byte sequence: byte 0 is the least significant, each
  further byte weighs 256 times the one before.
\<close>

fun le_nat :: "u8 list \<Rightarrow> nat" where
  "le_nat [] = 0"
| "le_nat (b # bs) = unat b + 256 * le_nat bs"

text \<open>
  The scenario of the spec: node \<open>0x100\<close>, a timeout of 50 ms, a clock that advances by
  10 ms from one reading to the next, and three kinds of bus: one that delivers the frame
  \<open>[0x2A, 0, 0, 0, 0, 0, 0, 0]\<close> at the third \<open>receive\<close>, one that stays silent, one
  that reports an error.
\<close>

definition example_node :: CANTelemetry where
  "example_node = \<lparr>baud_rate = 500000, node_id = 0x100, timeout = 50, debug = False\<rparr>"

definition idle_bus :: bus where
  "idle_bus = \<lparr>filters = [(0x100, 0x7FF)], trace = []\<rparr>"

definition reply_42 :: CANMessage where
  "reply_42 = \<lparr>msg_id = 0x200, msg_rtr = False, msg_len = 8,
                msg_data = [0x2A, 0, 0, 0, 0, 0, 0, 0]\<rparr>"

definition tick :: "nat \<Rightarrow> u32" where
  "tick k = 1000 + 10 * of_nat k"

definition no_frame :: "nat \<Rightarrow> CANMessage option" where
  "no_frame k = None"

definition frame_at_2 :: "nat \<Rightarrow> CANMessage option" where
  "frame_at_2 k = (if k = 2 then Some reply_42 else None)"

definition env_reply :: env where
  "env_reply = \<lparr>err_status = CAN_NO_ERROR, rx = frame_at_2, clock = tick\<rparr>"

definition env_silent :: env where
  "env_silent = \<lparr>err_status = CAN_NO_ERROR, rx = no_frame, clock = tick\<rparr>"

definition env_bus_off :: env where
  "env_bus_off = \<lparr>err_status = CAN_ERROR 1, rx = no_frame, clock = tick\<rparr>"

section \<open>The copy loop and the little-endian load\<close>

lemma copy_bytes_nth:
  "0 \<le> i \<Longrightarrow> nat len \<le> length src \<Longrightarrow> nat len \<le> length dst \<Longrightarrow>
   \<exists>r. copy_bytes dst src i len = Inr r \<and> length r = length dst \<and>
       (\<forall>j<length dst. r ! j = (if nat i \<le> j \<and> j < nat len then src ! j else dst ! j))"
proof (induction dst src i len rule: copy_bytes.induct)
  case (1 dst src i len)
  show ?case
  proof (cases "i < len")
    case False
    with "1.prems" have "nat len \<le> nat i" by simp
    with False show ?thesis by (auto simp: copy_bytes.simps [of dst src i len])
  next
    case True
    with "1.prems" have ok: "0 \<le> i \<and> nat i < length src \<and> nat i < length dst" by auto
    let ?d = "dst[nat i := src ! nat i]"
    from "1.IH" [OF True ok] "1.prems" obtain r where
      r: "copy_bytes ?d src (i + 1) len = Inr r" "length r = length ?d"
         "\<forall>j<length ?d. r ! j = (if nat (i + 1) \<le> j \<and> j < nat len then src ! j else ?d ! j)"
      by auto
    have "copy_bytes dst src i len = Inr r"
      using True ok r(1) by (simp add: copy_bytes.simps [of dst src i len])
    moreover have "length r = length dst" using r(2) by simp
    moreover have "\<forall>j<length dst. r ! j = (if nat i \<le> j \<and> j < nat len then src ! j else dst ! j)"
    proof (intro allI impI)
      fix j assume j: "j < length dst"
      with r(3) have "r ! j = (if nat (i + 1) \<le> j \<and> j < nat len then src ! j else ?d ! j)" by simp
      moreover have "nat (i + 1) = Suc (nat i)" using ok by arith
      ultimately show "r ! j = (if nat i \<le> j \<and> j < nat len then src ! j else dst ! j)"
        using j True ok by (cases "j = nat i") auto
    qed
    ultimately show ?thesis by blast
  qed
qed

lemma copy_bytes_take:
  assumes "nat len \<le> length src" "nat len \<le> length dst"
  shows "copy_bytes dst src 0 len = Inr (take (nat len) src @ drop (nat len) dst)"
proof -
  from copy_bytes_nth [of 0 len src dst] assms obtain r where
    r: "copy_bytes dst src 0 len = Inr r" "length r = length dst"
       "\<forall>j<length dst. r ! j = (if j < nat len then src ! j else dst ! j)"
    by auto
  have "r = take (nat len) src @ drop (nat len) dst"
  proof (rule nth_equalityI)
    show "length r = length (take (nat len) src @ drop (nat len) dst)"
      using r(2) assms by simp
  next
    fix j assume "j < length r"
    then show "r ! j = (take (nat len) src @ drop (nat len) dst) ! j"
      using r(2,3) assms by (auto simp: nth_append)
  qed
  with r(1) show ?thesis by simp
qed

lemma le_nat_bound: "le_nat bs < 256 ^ length bs"
proof (induction bs)
  case Nil
  show ?case by simp
next
  case (Cons b bs)
  have "unat b < 256" using unsigned_less [of b, where ?'a = nat] by simp
  with Cons show ?case by simp
qed

lemma le_nat_sum: "le_nat bs = (\<Sum>i<length bs. unat (bs ! i) * 256 ^ i)"
proof (induction bs)
  case Nil
  show ?case by simp
next
  case (Cons b bs)
  have "(\<Sum>i<Suc (length bs). unat ((b # bs) ! i) * 256 ^ i) =
        unat ((b # bs) ! 0) * 256 ^ 0 + (\<Sum>i<length bs. unat ((b # bs) ! Suc i) * 256 ^ Suc i)"
    by (rule sum.lessThan_Suc_shift)
  also have "\<dots> = unat b + 256 * (\<Sum>i<length bs. unat (bs ! i) * 256 ^ i)"
    by (simp add: sum_distrib_left mult_ac)
  finally show ?case using Cons by simp
qed

lemma le_nat_append_zeros: "le_nat (xs @ replicate k 0) = le_nat xs"
  by (induction xs) (simp_all, induction k, simp_all)

lemma le_nat_inj: "length xs = length ys \<Longrightarrow> le_nat xs = le_nat ys \<Longrightarrow> xs = ys"
proof (induction xs ys rule: list_induct2)
  case Nil
  show ?case by simp
next
  case (Cons x xs y ys)
  have bx: "unat x < 256" and "unat y < 256"
    using unsigned_less [of x, where ?'a = nat] unsigned_less [of y, where ?'a = nat] by simp_all
  from Cons.prems have eq: "unat x + 256 * le_nat xs = unat y + 256 * le_nat ys" by simp
  then have "(unat x + 256 * le_nat xs) mod 256 = (unat y + 256 * le_nat ys) mod 256" by simp
  then have xy: "unat x = unat y" using bx \<open>unat y < 256\<close> by simp
  with eq have "le_nat xs = le_nat ys" by simp
  with Cons.IH xy show ?case by (simp add: word_unat_eq_iff)
qed

lemma load_u64_step:
  fixes b :: u8 and w :: u64
  assumes "unat w < 2 ^ 56"
  shows "unat (ucast b OR push_bit 8 w) = unat b + 256 * unat w"
proof -
  have "(ucast b :: u64) + push_bit 8 w = ucast b OR push_bit 8 w"
    by (rule disjunctive_add_eq_or) (simp add: bit_eq_iff bit_simps, auto dest: bit_imp_le_length)
  then have "unat (ucast b OR push_bit 8 w) = unat ((ucast b :: u64) + push_bit 8 w)" by simp
  also have "\<dots> = unat b + 256 * unat w"
  proof -
    have b: "unat b < 256" using unsigned_less [of b, where ?'a = nat] by simp
    then have "unat (ucast b :: u64) = unat b"
      by (simp add: unsigned_ucast_eq take_bit_nat_eq_self)
    moreover have "unat (push_bit 8 w) = 256 * unat w"
      using assms by (simp add: push_bit_eq_mult unat_word_ariths)
    moreover have "unat b + 256 * unat w < 2 ^ 64" using b assms by simp
    ultimately show ?thesis by (simp add: unat_word_ariths)
  qed
  finally show ?thesis .
qed

lemma load_u64_le_nat: "length bs \<le> 8 \<Longrightarrow> unat (load_u64 bs) = le_nat bs"
proof (induction bs)
  case Nil
  show ?case by simp
next
  case (Cons b bs)
  then have ih: "unat (load_u64 bs) = le_nat bs" and l: "length bs \<le> 7" by simp_all
  have "le_nat bs < 256 ^ length bs" by (rule le_nat_bound)
  also have "\<dots> \<le> (256::nat) ^ 7" using l by (intro power_increasing) simp_all
  finally have "unat (load_u64 bs) < 2 ^ 56" using ih by simp
  from load_u64_step [OF this] ih show ?case by simp
qed

section \<open>Properties of decode\<close>

lemma decode_le_nat:
  assumes "len \<le> 8" "nat len \<le> length arr"
  shows "\<exists>v. decode arr len = Inr v \<and> unat v = le_nat (take (nat len) arr)"
proof -
  let ?n = "take (nat len) arr @ drop (nat len) (replicate 8 (0::u8))"
  from assms have "copy_bytes (replicate 8 0) arr 0 len = Inr ?n"
    by (intro copy_bytes_take) simp_all
  then have d: "decode arr len = Inr (load_u64 ?n)"
    by (simp add: decode_def)
  have "length ?n \<le> 8" using assms by simp
  then have "unat (load_u64 ?n) = le_nat ?n" by (rule load_u64_le_nat)
  also have "\<dots> = le_nat (take (nat len) arr)"
    by (simp add: le_nat_append_zeros)
  finally show ?thesis using d by simp
qed

lemma zero_buffer: "replicate 8 (0::u8) = [0, 0, 0, 0, 0, 0, 0, 0]"
  by (simp add: eval_nat_numeral)

lemma sentinel_value: "sentinel = 0xFFFFFFFFFFFFFFFF"
  by (simp add: sentinel_def)

lemma unat_sentinel: "unat sentinel = 2 ^ 64 - 1"
  by (simp add: sentinel_def unsigned_minus_1_eq_mask mask_eq_exp_minus_1)

text \<open>
  Claim C3. For every length in [0, 8] and every byte array holding at least that many
  bytes, \<open>decode\<close> returns a value (it is total there) and that value is the
  little-endian packing of the first \<open>len\<close> bytes, zero-extended to 64 bits: the sum
  over \<open>i < len\<close> of \<open>bytes[i] * 2^(8*i)\<close>.
\<close>

theorem C3_decode_little_endian:
  assumes "0 \<le> len" "len \<le> 8" "nat len \<le> length bytes"
  shows "\<exists>v. decode bytes len = Inr v \<and>
             unat v = (\<Sum>i<nat len. unat (bytes ! i) * 2 ^ (8 * i))"
proof -
  from decode_le_nat [OF assms(2,3)] obtain v where
    v: "decode bytes len = Inr v" "unat v = le_nat (take (nat len) bytes)"
    by blast
  have "le_nat (take (nat len) bytes) =
          (\<Sum>i<length (take (nat len) bytes). unat (take (nat len) bytes ! i) * 256 ^ i)"
    by (rule le_nat_sum)
  also have "\<dots> = (\<Sum>i<nat len. unat (bytes ! i) * 256 ^ i)"
    using assms(3) by (simp add: min_absorb2)
  also have "\<dots> = (\<Sum>i<nat len. unat (bytes ! i) * 2 ^ (8 * i))"
    by (simp add: power_mult)
  finally show ?thesis using v by simp
qed

theorem C3_decode_little_endian_witness:
  "(0::int) \<le> 2 \<and> (2::int) \<le> 8 \<and> nat 2 \<le> length [0x34, 0x12, 0xFF :: u8] \<and>
   decode [0x34, 0x12, 0xFF] 2 = Inr 0x1234 \<and>
   (\<exists>v. decode [0x34, 0x12, 0xFF] 2 = Inr v \<and>
        unat v = (\<Sum>i<nat 2. unat ([0x34, 0x12, 0xFF :: u8] ! i) * 2 ^ (8 * i)))"
proof -
  have d: "decode [0x34, 0x12, 0xFF] 2 = Inr 0x1234"
    by code_simp
  show ?thesis
    using d C3_decode_little_endian [of 2 "[0x34, 0x12, 0xFF]"] by simp
qed

text \<open>
  Claim C7. For a fixed length in [0, 8], two distinct byte sequences of that length
  never decode to the same value, and decoding zero bytes of any array gives 0.
\<close>

theorem C7_decode_injective:
  "(0 \<le> len \<and> len \<le> 8 \<and> length xs = nat len \<and> length ys = nat len \<and> xs \<noteq> ys
      \<longrightarrow> decode xs len \<noteq> decode ys len)
   \<and> decode bytes 0 = Inr 0"
proof (intro conjI impI)
  assume a: "0 \<le> len \<and> len \<le> 8 \<and> length xs = nat len \<and> length ys = nat len \<and> xs \<noteq> ys"
  from a decode_le_nat [of len xs] obtain v where
    v: "decode xs len = Inr v" "unat v = le_nat xs" by auto
  from a decode_le_nat [of len ys] obtain w where
    w: "decode ys len = Inr w" "unat w = le_nat ys" by auto
  show "decode xs len \<noteq> decode ys len"
  proof
    assume "decode xs len = decode ys len"
    with v w have "le_nat xs = le_nat ys" by simp
    with a le_nat_inj [of xs ys] show False by simp
  qed
next
  show "decode bytes 0 = Inr 0"
    by (simp add: decode_def copy_bytes.simps [of _ _ 0 0] zero_buffer)
qed

theorem C7_decode_injective_witness:
  "(0::int) \<le> 2 \<and> (2::int) \<le> 8 \<and> length [1, 2 :: u8] = nat 2 \<and> length [2, 1 :: u8] = nat 2 \<and>
   [1, 2 :: u8] \<noteq> [2, 1] \<and> decode [1, 2] 2 \<noteq> decode [2, 1] 2 \<and> decode [7, 7] 0 = Inr 0"
  using C7_decode_injective [of 2 "[1, 2]" "[2, 1]" "[7, 7]"] by simp

text \<open>
  Claim C10. For every length in [0, 8], the decoded value is strictly below
  \<open>2^(8*len)\<close>; for a length of at most 7 it is therefore never the sentinel
  \<open>0xFFFFFFFFFFFFFFFF\<close>, which only an eight-byte payload can produce.
\<close>

theorem C10_decode_below_sentinel:
  assumes "0 \<le> len" "len \<le> 8" "nat len \<le> length bytes"
  shows "\<exists>v. decode bytes len = Inr v \<and> unat v < 2 ^ (8 * nat len) \<and>
             (len \<le> 7 \<longrightarrow> v \<noteq> sentinel)"
proof -
  from decode_le_nat [OF assms(2,3)] obtain v where
    v: "decode bytes len = Inr v" "unat v = le_nat (take (nat len) bytes)"
    by blast
  have "le_nat (take (nat len) bytes) < 256 ^ length (take (nat len) bytes)"
    by (rule le_nat_bound)
  also have "\<dots> = 2 ^ (8 * nat len)"
    using assms(3) by (simp add: min_absorb2 power_mult)
  finally have b: "unat v < 2 ^ (8 * nat len)" using v(2) by simp
  have "v \<noteq> sentinel" if "len \<le> 7"
  proof
    assume "v = sentinel"
    with b have "(2::nat) ^ 64 - 1 < 2 ^ (8 * nat len)" by (simp add: unat_sentinel)
    moreover have "(2::nat) ^ (8 * nat len) \<le> 2 ^ 56"
      using that by (intro power_increasing) simp_all
    ultimately show False by simp
  qed
  with v(1) b show ?thesis by blast
qed

theorem C10_decode_below_sentinel_witness:
  "(0::int) \<le> 7 \<and> (7::int) \<le> 8 \<and> nat 7 \<le> length [255, 255, 255, 255, 255, 255, 255, 0 :: u8] \<and>
   (\<exists>v. decode [255, 255, 255, 255, 255, 255, 255, 0] 7 = Inr v \<and>
        unat v < 2 ^ (8 * nat 7) \<and> ((7::int) \<le> 7 \<longrightarrow> v \<noteq> sentinel))"
  using C10_decode_below_sentinel [of 7 "[255, 255, 255, 255, 255, 255, 255, 0]"] by simp

section \<open>The bus operations and the wait loop\<close>

lemma filters_set_mask: "filters (set_mask m b) = [(word_of_int m, 0x7FF)]"
  by (simp add: set_mask_def addFilter_def clearFilters_def)

lemma trace_set_mask:
  "trace (set_mask m b) = trace b @ [ClearFilters, AddFilter (word_of_int m) 0x7FF]"
  by (simp add: set_mask_def addFilter_def clearFilters_def)

lemma wait_loop_frame:
  "rx e k = Some response \<Longrightarrow>
   wait_loop e t t_stamp k b =
     Some (decode (msg_data response) (uint (msg_len response)),
           set_mask_default t (b\<lparr>trace := trace b @ [Receive]\<rparr>))"
  by (subst wait_loop.simps) (simp add: receive_def)

lemma wait_loop_timeout:
  "rx e k = None \<Longrightarrow> timeout t \<le> millis e (Suc k) - t_stamp \<Longrightarrow>
   wait_loop e t t_stamp k b =
     Some (Inr sentinel, set_mask_default t (b\<lparr>trace := trace b @ [Receive]\<rparr>))"
  by (subst wait_loop.simps) (simp add: receive_def)

lemma wait_loop_again:
  "rx e k = None \<Longrightarrow> millis e (Suc k) - t_stamp < timeout t \<Longrightarrow>
   wait_loop e t t_stamp k b =
     wait_loop e t t_stamp (Suc k) (b\<lparr>trace := trace b @ [Receive]\<rparr>)"
  by (subst wait_loop.simps) (simp add: receive_def not_le [symmetric])

lemma wait_loop_skip:
  "(\<forall>j<n. rx e (k + j) = None \<and> millis e (Suc (k + j)) - t_stamp < timeout t) \<Longrightarrow>
   wait_loop e t t_stamp k b =
     wait_loop e t t_stamp (k + n) (b\<lparr>trace := trace b @ replicate n Receive\<rparr>)"
proof (induction n arbitrary: k b)
  case 0
  show ?case by simp
next
  case (Suc n)
  from Suc.prems have first: "rx e k = None" "millis e (Suc k) - t_stamp < timeout t"
    by (metis add.right_neutral zero_less_Suc)+
  have rest: "\<forall>j<n. rx e (Suc k + j) = None \<and> millis e (Suc (Suc k + j)) - t_stamp < timeout t"
  proof (intro allI impI)
    fix j assume "j < n"
    then have "Suc j < Suc n" by simp
    with Suc.prems have "rx e (k + Suc j) = None \<and> millis e (Suc (k + Suc j)) - t_stamp < timeout t"
      by blast
    then show "rx e (Suc k + j) = None \<and> millis e (Suc (Suc k + j)) - t_stamp < timeout t"
      by simp
  qed
  have "wait_loop e t t_stamp k b =
          wait_loop e t t_stamp (Suc k) (b\<lparr>trace := trace b @ [Receive]\<rparr>)"
    using first by (rule wait_loop_again)
  also have "\<dots> = wait_loop e t t_stamp (Suc k + n)
                     (b\<lparr>trace := trace b @ [Receive]\<rparr>
                       \<lparr>trace := trace (b\<lparr>trace := trace b @ [Receive]\<rparr>) @ replicate n Receive\<rparr>)"
    using rest by (rule Suc.IH)
  finally show ?case by (simp add: replicate_app_Cons_same)
qed

lemma wait_loop_returns:
  "wait_loop e t t_stamp k b = Some y \<Longrightarrow>
   filters (snd y) = [(word_of_int (node_id t), 0x7FF)] \<and>
   (\<exists>n. trace (snd y) = trace b @ replicate (Suc n) Receive @
            [ClearFilters, AddFilter (word_of_int (node_id t)) 0x7FF])"
proof (induction rule: wait_loop.raw_induct [rotated 1, consumes 1, case_names body])
  case (body wait_loop e t t_stamp k b y)
  show ?case
  proof (cases "rx e k")
    case (Some response)
    with body.hyps have "snd y = set_mask_default t (b\<lparr>trace := trace b @ [Receive]\<rparr>)"
      by (auto simp: receive_def)
    then have "filters (snd y) = [(word_of_int (node_id t), 0x7FF)]"
      and "trace (snd y) = trace b @ replicate (Suc 0) Receive @
             [ClearFilters, AddFilter (word_of_int (node_id t)) 0x7FF]"
      by (simp_all add: set_mask_default_def filters_set_mask trace_set_mask)
    then show ?thesis by blast
  next
    case None
    show ?thesis
    proof (cases "timeout t \<le> millis e (Suc k) - t_stamp")
      case True
      with None body.hyps have "snd y = set_mask_default t (b\<lparr>trace := trace b @ [Receive]\<rparr>)"
        by (auto simp: receive_def)
      then have "filters (snd y) = [(word_of_int (node_id t), 0x7FF)]"
        and "trace (snd y) = trace b @ replicate (Suc 0) Receive @
               [ClearFilters, AddFilter (word_of_int (node_id t)) 0x7FF]"
        by (simp_all add: set_mask_default_def filters_set_mask trace_set_mask)
      then show ?thesis by blast
    next
      case False
      with None body.hyps have
        "wait_loop e t t_stamp (Suc k) (b\<lparr>trace := trace b @ [Receive]\<rparr>) = Some y"
        by (simp add: receive_def)
      from body.IH [OF this] obtain n where
        f: "filters (snd y) = [(word_of_int (node_id t), 0x7FF)]" and
        tr: "trace (snd y) = trace (b\<lparr>trace := trace b @ [Receive]\<rparr>) @ replicate (Suc n) Receive @
               [ClearFilters, AddFilter (word_of_int (node_id t)) 0x7FF]"
        by blast
      from tr have "trace (snd y) = trace b @ replicate (Suc (Suc n)) Receive @
               [ClearFilters, AddFilter (word_of_int (node_id t)) 0x7FF]"
        by simp
      with f show ?thesis by blast
    qed
  qed
qed

lemma build_message_ok:
  assumes "len \<le> 8" "nat len \<le> length payload"
  shows "build_message header frame payload len =
           Inr \<lparr>msg_id = header, msg_rtr = frame, msg_len = word_of_int len,
                msg_data = take (nat len) payload @ replicate (8 - nat len) 0\<rparr>"
proof -
  from assms have "copy_bytes (replicate 8 0) payload 0 len =
      Inr (take (nat len) payload @ drop (nat len) (replicate 8 0))"
    by (intro copy_bytes_take) simp_all
  then show ?thesis
    by (simp add: build_message_def CANMessage_new_def)
qed

section \<open>poll up to the wait loop\<close>

lemma poll_fault:
  "len \<le> 8 \<Longrightarrow> mode = CALL_AND_RESP \<Longrightarrow> build_message header frame payload len = Inl f \<Longrightarrow>
   poll e t header filter_id mode frame payload len b = Some (Inl f, set_mask (sint filter_id) b)"
  by (simp add: poll_def Let_def)

lemma poll_valid:
  assumes "len \<le> 8"
    and "mode = CALL_AND_RESP \<Longrightarrow> build_message header frame payload len = Inr message"
    and "b2 = (if mode = CALL_AND_RESP then transmit message (set_mask (sint filter_id) b)
               else set_mask (sint filter_id) b)"
    and "b3 = b2\<lparr>trace := trace b2 @ [ErrorStatus]\<rparr>"
  shows "poll e t header filter_id mode frame payload len b =
           (if err_status e = CAN_NO_ERROR then wait_loop e t (millis e 0) 0 b3
            else Some (Inr sentinel,
                   set_mask_default t
                     (transmit (CANMessage_new\<lparr>msg_id := word_of_int (node_id t)\<rparr>) b3)))"
  using assms by (simp add: poll_def errorStatus_def Let_def)

lemma trace_after_request:
  assumes "b2 = (if mode = CALL_AND_RESP then transmit message (set_mask (sint filter_id) b)
               else set_mask (sint filter_id) b)"
    and "b3 = b2\<lparr>trace := trace b2 @ [ErrorStatus]\<rparr>"
  shows "trace b3 = trace b @ [ClearFilters, AddFilter filter_id 0x7FF] @
           (if mode = CALL_AND_RESP then [Transmit message] else []) @ [ErrorStatus]"
  using assms by (simp add: trace_set_mask transmit_def)

lemma poll_enters_wait:
  assumes "len \<le> 8" "nat len \<le> length payload" "err_status e = CAN_NO_ERROR"
  shows "\<exists>b3. poll e t header filter_id mode frame payload len b =
               wait_loop e t (millis e 0) 0 b3"
proof -
  from build_message_ok [OF assms(1,2)] obtain query where
    q: "build_message header frame payload len = Inr query" by blast
  define b2 where "b2 = (if mode = CALL_AND_RESP then transmit query (set_mask (sint filter_id) b)
               else set_mask (sint filter_id) b)"
  define b3 where "b3 = b2\<lparr>trace := trace b2 @ [ErrorStatus]\<rparr>"
  from poll_valid [OF assms(1) q b2_def b3_def, of e t] assms(3) show ?thesis by auto
qed

lemma wait_loop_expires:
  assumes "\<forall>j\<le>k. rx e j = None"
    and "\<forall>j<k. millis e (Suc j) - t_stamp < timeout t"
    and "timeout t \<le> millis e (Suc k) - t_stamp"
  shows "\<exists>b'. wait_loop e t t_stamp 0 b = Some (Inr sentinel, b') \<and>
              filters b' = [(word_of_int (node_id t), 0x7FF)]"
proof -
  from assms(1,2) have "wait_loop e t t_stamp 0 b =
      wait_loop e t t_stamp (0 + k) (b\<lparr>trace := trace b @ replicate k Receive\<rparr>)"
    by (intro wait_loop_skip) simp
  also have "\<dots> = Some (Inr sentinel,
      set_mask_default t (b\<lparr>trace := trace b @ replicate k Receive\<rparr>
         \<lparr>trace := trace (b\<lparr>trace := trace b @ replicate k Receive\<rparr>) @ [Receive]\<rparr>))"
    using assms(1,3) by (simp add: wait_loop_timeout)
  finally show ?thesis
    by (simp add: set_mask_default_def filters_set_mask)
qed

lemma modes_distinct: "PASSIVE_POLL \<noteq> CALL_AND_RESP"
  by (simp add: PASSIVE_POLL_def CALL_AND_RESP_def)

lemma decode_frame_value:
  assumes "length d = 8" "unat l \<le> 8"
  shows "\<exists>v. decode d (uint (l :: u8)) = Inr v \<and>
             unat v = (\<Sum>i<unat l. unat (d ! i) * 2 ^ (8 * i))"
proof -
  have n: "nat (uint l) = unat l" by simp
  have "uint l \<le> 8" using assms(2) n by linarith
  moreover have "nat (uint l) \<le> length d" using assms n by simp
  ultimately obtain v where
    v: "decode d (uint l) = Inr v" "unat v = le_nat (take (nat (uint l)) d)"
    using decode_le_nat by blast
  have "le_nat (take (unat l) d) =
          (\<Sum>i<length (take (unat l) d). unat (take (unat l) d ! i) * 256 ^ i)"
    by (rule le_nat_sum)
  also have "\<dots> = (\<Sum>i<unat l. unat (d ! i) * 256 ^ i)"
    using assms by (simp add: min_absorb2)
  also have "\<dots> = (\<Sum>i<unat l. unat (d ! i) * 2 ^ (8 * i))"
    by (simp add: power_mult)
  finally show ?thesis using v n by simp
qed

lemma poll_reaches_wait:
  assumes "len \<le> 8" "mode = CALL_AND_RESP \<longrightarrow> nat len \<le> length payload"
    and "err_status e = CAN_NO_ERROR"
  shows "\<exists>b3. poll e t header filter_id mode frame payload len b =
               wait_loop e t (millis e 0) 0 b3 \<and>
             trace b3 = trace b @ [ClearFilters, AddFilter filter_id 0x7FF] @
               (if mode = CALL_AND_RESP
                then [Transmit \<lparr>msg_id = header, msg_rtr = frame, msg_len = word_of_int len,
                        msg_data = take (nat len) payload @ replicate (8 - nat len) 0\<rparr>]
                else []) @ [ErrorStatus]"
proof -
  define query where "query = \<lparr>msg_id = header, msg_rtr = frame, msg_len = word_of_int len,
      msg_data = take (nat len) payload @ replicate (8 - nat len) (0::u8)\<rparr>"
  have q: "mode = CALL_AND_RESP \<Longrightarrow> build_message header frame payload len = Inr query"
    using assms(1,2) by (simp add: query_def build_message_ok)
  define b2 where "b2 = (if mode = CALL_AND_RESP then transmit query (set_mask (sint filter_id) b)
               else set_mask (sint filter_id) b)"
  define b3 where "b3 = b2\<lparr>trace := trace b2 @ [ErrorStatus]\<rparr>"
  have "poll e t header filter_id mode frame payload len b = wait_loop e t (millis e 0) 0 b3"
    using poll_valid [OF assms(1) q b2_def b3_def, of e t] assms(3) by simp
  moreover note trace_after_request [OF b2_def b3_def]
  ultimately show ?thesis unfolding query_def by blast
qed

lemma wait_loop_first_frame_trace:
  assumes "\<forall>j<k. rx e j = None \<and> millis e (Suc j) - t_stamp < timeout t"
    and "rx e k = Some response"
  shows "\<exists>b'. wait_loop e t t_stamp 0 b =
                 Some (decode (msg_data response) (uint (msg_len response)), b') \<and>
              trace b' = trace b @ replicate (Suc k) Receive @
                [ClearFilters, AddFilter (word_of_int (node_id t)) 0x7FF] \<and>
              filters b' = [(word_of_int (node_id t), 0x7FF)]"
proof -
  from assms(1) have "wait_loop e t t_stamp 0 b =
      wait_loop e t t_stamp (0 + k) (b\<lparr>trace := trace b @ replicate k Receive\<rparr>)"
    by (intro wait_loop_skip) simp
  also have "\<dots> = Some (decode (msg_data response) (uint (msg_len response)),
      set_mask_default t (b\<lparr>trace := trace b @ replicate k Receive\<rparr>
         \<lparr>trace := trace (b\<lparr>trace := trace b @ replicate k Receive\<rparr>) @ [Receive]\<rparr>))"
    using assms(2) by (simp add: wait_loop_frame)
  finally show ?thesis
    by (simp add: set_mask_default_def filters_set_mask trace_set_mask replicate_append_same)
qed

section \<open>Runs of the scenario\<close>

lemmas example_defs = example_node_def idle_bus_def reply_42_def tick_def no_frame_def
  frame_at_2_def env_reply_def env_silent_def env_bus_off_def

lemma run_silent:
  "poll env_silent example_node 0x200 0x200 CALL_AND_RESP False [1, 2] 2 idle_bus =
     Some (Inr sentinel,
       \<lparr>filters = [(0x100, 0x7FF)],
        trace = [ClearFilters, AddFilter 0x200 0x7FF,
                 Transmit \<lparr>msg_id = 0x200, msg_rtr = False, msg_len = 2,
                           msg_data = [1, 2, 0, 0, 0, 0, 0, 0]\<rparr>,
                 ErrorStatus, Receive, Receive, Receive, Receive, Receive,
                 ClearFilters, AddFilter 0x100 0x7FF]\<rparr>)"
  by code_simp

lemma run_reply:
  "poll env_reply example_node 0x200 0x200 CALL_AND_RESP False [1, 2] 2 idle_bus =
     Some (Inr 42,
       \<lparr>filters = [(0x100, 0x7FF)],
        trace = [ClearFilters, AddFilter 0x200 0x7FF,
                 Transmit \<lparr>msg_id = 0x200, msg_rtr = False, msg_len = 2,
                           msg_data = [1, 2, 0, 0, 0, 0, 0, 0]\<rparr>,
                 ErrorStatus, Receive, Receive, Receive,
                 ClearFilters, AddFilter 0x100 0x7FF]\<rparr>)"
  by code_simp

lemma run_bus_off:
  "poll env_bus_off example_node 0x200 0x200 CALL_AND_RESP False [1, 2] 2 idle_bus =
     Some (Inr sentinel,
       \<lparr>filters = [(0x100, 0x7FF)],
        trace = [ClearFilters, AddFilter 0x200 0x7FF,
                 Transmit \<lparr>msg_id = 0x200, msg_rtr = False, msg_len = 2,
                           msg_data = [1, 2, 0, 0, 0, 0, 0, 0]\<rparr>,
                 ErrorStatus,
                 Transmit \<lparr>msg_id = 0x100, msg_rtr = False, msg_len = 0,
                           msg_data = [0, 0, 0, 0, 0, 0, 0, 0]\<rparr>,
                 ClearFilters, AddFilter 0x100 0x7FF]\<rparr>)"
  by code_simp

lemma run_passive_bus_off:
  "poll env_bus_off example_node 0x200 0x200 PASSIVE_POLL False [] 0 idle_bus =
     Some (Inr sentinel,
       \<lparr>filters = [(0x100, 0x7FF)],
        trace = [ClearFilters, AddFilter 0x200 0x7FF, ErrorStatus,
                 Transmit \<lparr>msg_id = 0x100, msg_rtr = False, msg_len = 0,
                           msg_data = [0, 0, 0, 0, 0, 0, 0, 0]\<rparr>,
                 ClearFilters, AddFilter 0x100 0x7FF]\<rparr>)"
  by code_simp

lemma run_passive_reply:
  "poll env_reply example_node 0x200 0x200 PASSIVE_POLL False [] 0 idle_bus =
     Some (Inr 42,
       \<lparr>filters = [(0x100, 0x7FF)],
        trace = [ClearFilters, AddFilter 0x200 0x7FF, ErrorStatus,
                 Receive, Receive, Receive,
                 ClearFilters, AddFilter 0x100 0x7FF]\<rparr>)"
  by code_simp

lemma run_negative:
  "poll env_reply example_node 0x200 0x200 CALL_AND_RESP False [] (- 1) idle_bus =
     Some (Inr 42,
       \<lparr>filters = [(0x100, 0x7FF)],
        trace = [ClearFilters, AddFilter 0x200 0x7FF,
                 Transmit \<lparr>msg_id = 0x200, msg_rtr = False, msg_len = 255,
                           msg_data = [0, 0, 0, 0, 0, 0, 0, 0]\<rparr>,
                 ErrorStatus, Receive, Receive, Receive,
                 ClearFilters, AddFilter 0x100 0x7FF]\<rparr>)"
  by code_simp

lemma hyp_reply: "\<forall>j<2. rx env_reply j = None \<and> millis env_reply (Suc j) - millis env_reply 0 < timeout example_node"
proof (intro allI impI)
  fix j :: nat assume "j < 2"
  then consider "j = 0" | "j = 1" by arith
  then show "rx env_reply j = None \<and> millis env_reply (Suc j) - millis env_reply 0 < timeout example_node"
    by cases (simp_all add: example_defs millis_def)
qed

lemma hyp_silent: "\<forall>j<4. millis env_silent (Suc j) - millis env_silent 0 < timeout example_node"
proof (intro allI impI)
  fix j :: nat assume "j < 4"
  then consider "j = 0" | "j = 1" | "j = 2" | "j = 3" by arith
  then show "millis env_silent (Suc j) - millis env_silent 0 < timeout example_node"
    by cases (simp_all add: example_defs millis_def)
qed

lemma hyp_silent2: "timeout example_node \<le> millis env_silent (Suc 4) - millis env_silent 0"
  by (simp add: example_defs millis_def)

section \<open>Properties of poll\<close>

text \<open>
  Claim C1. Whenever \<open>poll\<close> is called with a length in [0, 8] and returns a value
  (a received frame, a timeout or a bus error), the bus is left with exactly one
  filter, \<open>(node identifier, 0x7FF)\<close>. A read past the end of the payload array is
  a fault of the model, not a return.
\<close>

theorem C1_poll_restores_filter:
  assumes "0 \<le> len" "len \<le> 8"
    and "poll e t header filter_id mode frame payload len b = Some (Inr v, b')"
  shows "filters b' = [(word_of_int (node_id t), 0x7FF)]"
proof -
  obtain message where m: "mode = CALL_AND_RESP \<Longrightarrow> build_message header frame payload len = Inr message"
  proof (cases "mode = CALL_AND_RESP")
    case False
    then show ?thesis using that [of CANMessage_new] by simp
  next
    case True
    show ?thesis
    proof (cases "build_message header frame payload len")
      case (Inl f)
      with True assms(2,3) poll_fault [of len mode header frame payload f e t filter_id b]
      show ?thesis by simp
    next
      case (Inr msg)
      then show ?thesis using that [of msg] by simp
    qed
  qed
  define b2 where "b2 = (if mode = CALL_AND_RESP then transmit message (set_mask (sint filter_id) b)
               else set_mask (sint filter_id) b)"
  define b3 where "b3 = b2\<lparr>trace := trace b2 @ [ErrorStatus]\<rparr>"
  note p = poll_valid [OF assms(2) m b2_def b3_def, of e t]
  show ?thesis
  proof (cases "err_status e = CAN_NO_ERROR")
    case True
    with p assms(3) have "wait_loop e t (millis e 0) 0 b3 = Some (Inr v, b')" by simp
    from wait_loop_returns [OF this] show ?thesis by simp
  next
    case False
    with p assms(3) show ?thesis
      by (auto simp: set_mask_default_def filters_set_mask)
  qed
qed

theorem C1_poll_restores_filter_witness:
  "(0::int) \<le> 2 \<and> (2::int) \<le> 8 \<and>
   (\<exists>b'. poll env_reply example_node 0x200 0x200 CALL_AND_RESP False [1, 2] 2 idle_bus =
            Some (Inr 42, b') \<and>
         filters b' = [(0x100, 0x7FF)]) \<and>
   (\<exists>b'. poll env_silent example_node 0x200 0x200 CALL_AND_RESP False [1, 2] 2 idle_bus =
            Some (Inr sentinel, b') \<and>
         filters b' = [(0x100, 0x7FF)]) \<and>
   (\<exists>b'. poll env_bus_off example_node 0x200 0x200 CALL_AND_RESP False [1, 2] 2 idle_bus =
            Some (Inr sentinel, b') \<and>
         filters b' = [(0x100, 0x7FF)])"
  using C1_poll_restores_filter [OF _ _ run_reply]
    C1_poll_restores_filter [OF _ _ run_silent]
    C1_poll_restores_filter [OF _ _ run_bus_off]
    run_reply run_silent run_bus_off
  by (simp add: example_node_def)

text \<open>
  Claim C2. As amended: for every length above 8, \<open>poll\<close> returns the sentinel at once
  and leaves the bus as it was: no filter change and no call on the channel. A negative
  length is not covered: the guard of the source is \<open>len > 8\<close>.
\<close>

theorem C2_poll_length_guard:
  "8 < len \<Longrightarrow> poll e t header filter_id mode frame payload len b = Some (Inr sentinel, b)"
  by (simp add: poll_def)

theorem C2_poll_length_guard_witness:
  "(8::int) < 9 \<and>
   poll env_reply example_node 0x200 0x200 CALL_AND_RESP False [1, 2, 3, 4, 5, 6, 7, 8, 9] 9 idle_bus =
     Some (Inr sentinel, idle_bus)"
  using C2_poll_length_guard
    [where len = 9 and e = env_reply and t = example_node and header = "0x200"
       and filter_id = "0x200" and mode = CALL_AND_RESP and frame = False
       and payload = "[1, 2, 3, 4, 5, 6, 7, 8, 9]" and b = idle_bus]
  by simp

text \<open>
  With the length \<open>-1\<close> the guard lets the call through: the filter is installed, a
  frame is transmitted and the reply is decoded, so the result is not even the sentinel.
\<close>

theorem C2_negative_length_counterexample:
  "(- 1 :: int) < 0 \<and>
   poll env_reply example_node 0x200 0x200 CALL_AND_RESP False [] (- 1) idle_bus =
     Some (Inr 42,
       \<lparr>filters = [(0x100, 0x7FF)],
        trace = [ClearFilters, AddFilter 0x200 0x7FF,
                 Transmit \<lparr>msg_id = 0x200, msg_rtr = False, msg_len = 255,
                           msg_data = [0, 0, 0, 0, 0, 0, 0, 0]\<rparr>,
                 ErrorStatus, Receive, Receive, Receive,
                 ClearFilters, AddFilter 0x100 0x7FF]\<rparr>) \<and>
   poll env_reply example_node 0x200 0x200 CALL_AND_RESP False [] (- 1) idle_bus \<noteq>
     Some (Inr sentinel, idle_bus)"
  using run_negative by (simp add: sentinel_def)

text \<open>
  Claim C4. When the error status read after the request is not \<open>CAN_NO_ERROR\<close>,
  \<open>poll\<close> transmits one diagnostic frame whose identifier is the node's, restores the
  default filter and returns the sentinel; the calls on the channel are the filter
  installation, the request (in \<open>CALL_AND_RESP\<close> mode), the status check, the diagnostic
  frame and the filter restoration, with no \<open>receive\<close> among them.
\<close>

theorem C4_poll_bus_error:
  assumes "len \<le> 8" "nat len \<le> length payload" "err_status e \<noteq> CAN_NO_ERROR"
  shows "\<exists>b' query.
           poll e t header filter_id mode frame payload len b = Some (Inr sentinel, b') \<and>
           build_message header frame payload len = Inr query \<and>
           trace b' = trace b @ [ClearFilters, AddFilter filter_id 0x7FF] @
             (if mode = CALL_AND_RESP then [Transmit query] else []) @
             [ErrorStatus, Transmit (CANMessage_new\<lparr>msg_id := word_of_int (node_id t)\<rparr>),
              ClearFilters, AddFilter (word_of_int (node_id t)) 0x7FF] \<and>
           filters b' = [(word_of_int (node_id t), 0x7FF)]"
proof -
  from build_message_ok [OF assms(1,2)] obtain query where
    q: "build_message header frame payload len = Inr query" by blast
  define b2 where "b2 = (if mode = CALL_AND_RESP then transmit query (set_mask (sint filter_id) b)
               else set_mask (sint filter_id) b)"
  define b3 where "b3 = b2\<lparr>trace := trace b2 @ [ErrorStatus]\<rparr>"
  define b' where "b' = set_mask_default t
                     (transmit (CANMessage_new\<lparr>msg_id := word_of_int (node_id t)\<rparr>) b3)"
  have "poll e t header filter_id mode frame payload len b = Some (Inr sentinel, b')"
    using poll_valid [OF assms(1) q b2_def b3_def, of e t] assms(3) by (simp add: b'_def)
  moreover have "trace b' = trace b3 @
      [Transmit (CANMessage_new\<lparr>msg_id := word_of_int (node_id t)\<rparr>),
       ClearFilters, AddFilter (word_of_int (node_id t)) 0x7FF]"
    by (simp add: b'_def set_mask_default_def trace_set_mask transmit_def)
  moreover note trace_after_request [OF b2_def b3_def]
  moreover have "filters b' = [(word_of_int (node_id t), 0x7FF)]"
    by (simp add: b'_def set_mask_default_def filters_set_mask)
  ultimately show ?thesis using q by simp
qed

theorem C4_poll_bus_error_witness:
  "(2::int) \<le> 8 \<and> nat 2 \<le> length [1, 2 :: u8] \<and> err_status env_bus_off \<noteq> CAN_NO_ERROR \<and>
   (\<exists>b' query.
      poll env_bus_off example_node 0x200 0x200 CALL_AND_RESP False [1, 2] 2 idle_bus =
        Some (Inr sentinel, b') \<and>
      build_message 0x200 False [1, 2] 2 = Inr query \<and>
      trace b' = [ClearFilters, AddFilter 0x200 0x7FF, Transmit query, ErrorStatus,
                  Transmit (CANMessage_new\<lparr>msg_id := 0x100\<rparr>),
                  ClearFilters, AddFilter 0x100 0x7FF] \<and>
      filters b' = [(0x100, 0x7FF)])"
  using C4_poll_bus_error
    [where len = 2 and payload = "[1, 2]" and e = env_bus_off and t = example_node
       and header = "0x200" and filter_id = "0x200" and mode = CALL_AND_RESP
       and frame = False and b = idle_bus]
  by (simp add: env_bus_off_def example_node_def idle_bus_def)

text \<open>
  Claim C5. When the bus reports no error and the \<open>k\<close>-th \<open>receive\<close> is the first to
  deliver a frame (eight data bytes, a length of at most 8), the clock not having reached
  the timeout before, \<open>poll\<close> returns the little-endian value of as many leading
  data bytes as the frame's length says, whatever the frame's identifier and content; for the data
  \<open>[0x2A, 0, 0, 0, 0, 0, 0, 0]\<close> of length 8 that is 42. It returns at once: after the
  \<open>k + 1\<close> receive attempts the only calls on the channel are those that restore the
  default filter.
\<close>

theorem C5_poll_first_frame:
  assumes "0 \<le> len" "len \<le> 8"
    and "mode = CALL_AND_RESP \<longrightarrow> nat len \<le> length payload"
    and "err_status e = CAN_NO_ERROR"
    and "\<forall>j<k. rx e j = None \<and> millis e (Suc j) - millis e 0 < timeout t"
    and "rx e k = Some response"
    and "length (msg_data response) = 8" "unat (msg_len response) \<le> 8"
  shows "\<exists>b' v.
           poll e t header filter_id mode frame payload len b = Some (Inr v, b') \<and>
           unat v = (\<Sum>i<unat (msg_len response). unat (msg_data response ! i) * 2 ^ (8 * i)) \<and>
           (msg_data response = [0x2A, 0, 0, 0, 0, 0, 0, 0] \<and> msg_len response = 8 \<longrightarrow> v = 42) \<and>
           trace b' = trace b @ [ClearFilters, AddFilter filter_id 0x7FF] @
             (if mode = CALL_AND_RESP
              then [Transmit \<lparr>msg_id = header, msg_rtr = frame, msg_len = word_of_int len,
                      msg_data = take (nat len) payload @ replicate (8 - nat len) 0\<rparr>]
              else []) @
             [ErrorStatus] @ replicate (Suc k) Receive @
             [ClearFilters, AddFilter (word_of_int (node_id t)) 0x7FF] \<and>
           filters b' = [(word_of_int (node_id t), 0x7FF)]"
proof -
  from poll_reaches_wait [OF assms(2,3,4)] obtain b3 where
    p: "poll e t header filter_id mode frame payload len b = wait_loop e t (millis e 0) 0 b3"
    and t3: "trace b3 = trace b @ [ClearFilters, AddFilter filter_id 0x7FF] @
               (if mode = CALL_AND_RESP
                then [Transmit \<lparr>msg_id = header, msg_rtr = frame, msg_len = word_of_int len,
                        msg_data = take (nat len) payload @ replicate (8 - nat len) 0\<rparr>]
                else []) @ [ErrorStatus]"
    by blast
  from wait_loop_first_frame_trace [OF assms(5,6)] obtain b' where
    w: "wait_loop e t (millis e 0) 0 b3 =
          Some (decode (msg_data response) (uint (msg_len response)), b')"
    and t': "trace b' = trace b3 @ replicate (Suc k) Receive @
                [ClearFilters, AddFilter (word_of_int (node_id t)) 0x7FF]"
    and f': "filters b' = [(word_of_int (node_id t), 0x7FF)]"
    by blast
  from decode_frame_value [OF assms(7,8)] obtain v where
    v: "decode (msg_data response) (uint (msg_len response)) = Inr v"
       "unat v = (\<Sum>i<unat (msg_len response). unat (msg_data response ! i) * 2 ^ (8 * i))"
    by blast
  have d42: "decode [0x2A, 0, 0, 0, 0, 0, 0, 0] (uint (8 :: u8)) = Inr 42"
    by code_simp
  have "v = 42" if "msg_data response = [0x2A, 0, 0, 0, 0, 0, 0, 0] \<and> msg_len response = 8"
    using that v(1) d42 by simp
  moreover have "poll e t header filter_id mode frame payload len b = Some (Inr v, b')"
    using p w v(1) by simp
  moreover have "trace b' = trace b @ [ClearFilters, AddFilter filter_id 0x7FF] @
             (if mode = CALL_AND_RESP
              then [Transmit \<lparr>msg_id = header, msg_rtr = frame, msg_len = word_of_int len,
                      msg_data = take (nat len) payload @ replicate (8 - nat len) 0\<rparr>]
              else []) @
             [ErrorStatus] @ replicate (Suc k) Receive @
             [ClearFilters, AddFilter (word_of_int (node_id t)) 0x7FF]"
    using t' t3 by simp
  ultimately show ?thesis using v(2) f' by blast
qed

theorem C5_poll_first_frame_witness:
  "(0::int) \<le> 2 \<and> (2::int) \<le> 8 \<and> nat 2 \<le> length [1, 2 :: u8] \<and>
   err_status env_reply = CAN_NO_ERROR \<and>
   rx env_reply 0 = None \<and> millis env_reply 1 - millis env_reply 0 < timeout example_node \<and>
   rx env_reply 1 = None \<and> millis env_reply 2 - millis env_reply 0 < timeout example_node \<and>
   rx env_reply 2 = Some reply_42 \<and>
   length (msg_data reply_42) = 8 \<and> unat (msg_len reply_42) \<le> 8 \<and>
   (\<exists>b'. poll env_reply example_node 0x200 0x200 CALL_AND_RESP False [1, 2] 2 idle_bus =
            Some (Inr 42, b') \<and>
         trace b' = [ClearFilters, AddFilter 0x200 0x7FF,
                     Transmit \<lparr>msg_id = 0x200, msg_rtr = False, msg_len = 2,
                               msg_data = [1, 2, 0, 0, 0, 0, 0, 0]\<rparr>,
                     ErrorStatus, Receive, Receive, Receive,
                     ClearFilters, AddFilter 0x100 0x7FF] \<and>
         filters b' = [(0x100, 0x7FF)])"
proof -
  have wf: "length (msg_data reply_42) = 8" "unat (msg_len reply_42) \<le> 8"
    by (simp_all add: reply_42_def)
  have pad: "replicate 6 (0::u8) = [0, 0, 0, 0, 0, 0]"
    by (simp add: eval_nat_numeral)
  have "\<exists>b'. poll env_reply example_node 0x200 0x200 CALL_AND_RESP False [1, 2] 2 idle_bus =
            Some (Inr 42, b') \<and>
         trace b' = [ClearFilters, AddFilter 0x200 0x7FF,
                     Transmit \<lparr>msg_id = 0x200, msg_rtr = False, msg_len = 2,
                               msg_data = [1, 2, 0, 0, 0, 0, 0, 0]\<rparr>,
                     ErrorStatus, Receive, Receive, Receive,
                     ClearFilters, AddFilter 0x100 0x7FF] \<and>
         filters b' = [(0x100, 0x7FF)]"
    using C5_poll_first_frame
      [where len = 2 and payload = "[1, 2]" and e = env_reply and t = example_node
         and k = 2 and response = reply_42 and header = "0x200" and filter_id = "0x200"
         and mode = CALL_AND_RESP and frame = False and b = idle_bus,
       OF _ _ _ _ hyp_reply _ wf]
    by (auto simp: env_reply_def frame_at_2_def reply_42_def example_node_def idle_bus_def
          numeral_3_eq_3 pad)
  moreover have "rx env_reply 0 = None \<and> millis env_reply 1 - millis env_reply 0 < timeout example_node \<and>
   rx env_reply 1 = None \<and> millis env_reply 2 - millis env_reply 0 < timeout example_node \<and>
   rx env_reply 2 = Some reply_42 \<and> err_status env_reply = CAN_NO_ERROR"
    by (simp add: example_defs millis_def)
  ultimately show ?thesis using wf by simp
qed

text \<open>
  Claim C6. When the bus reports no error and no frame has arrived by the iteration in
  which the elapsed time reaches the timeout, \<open>poll\<close> restores the default filter and
  returns the sentinel.
\<close>

theorem C6_poll_timeout:
  assumes "0 \<le> len" "len \<le> 8" "nat len \<le> length payload"
    and "err_status e = CAN_NO_ERROR"
    and "\<forall>j\<le>k. rx e j = None"
    and "\<forall>j<k. millis e (Suc j) - millis e 0 < timeout t"
    and "timeout t \<le> millis e (Suc k) - millis e 0"
  shows "\<exists>b'. poll e t header filter_id mode frame payload len b = Some (Inr sentinel, b') \<and>
              filters b' = [(word_of_int (node_id t), 0x7FF)]"
proof -
  from poll_enters_wait [OF assms(2,3,4)] obtain b3 where
    p: "poll e t header filter_id mode frame payload len b = wait_loop e t (millis e 0) 0 b3"
    by blast
  from wait_loop_expires [OF assms(5,6,7)] p show ?thesis by simp
qed

theorem C6_poll_timeout_witness:
  "(0::int) \<le> 2 \<and> (2::int) \<le> 8 \<and> nat 2 \<le> length [1, 2 :: u8] \<and>
   err_status env_silent = CAN_NO_ERROR \<and>
   rx env_silent 0 = None \<and> rx env_silent 1 = None \<and> rx env_silent 2 = None \<and>
   rx env_silent 3 = None \<and> rx env_silent 4 = None \<and>
   millis env_silent 1 - millis env_silent 0 < timeout example_node \<and>
   millis env_silent 2 - millis env_silent 0 < timeout example_node \<and>
   millis env_silent 3 - millis env_silent 0 < timeout example_node \<and>
   millis env_silent 4 - millis env_silent 0 < timeout example_node \<and>
   timeout example_node \<le> millis env_silent 5 - millis env_silent 0 \<and>
   (\<exists>b'. poll env_silent example_node 0x200 0x200 CALL_AND_RESP False [1, 2] 2 idle_bus =
            Some (Inr sentinel, b') \<and>
         filters b' = [(0x100, 0x7FF)])"
proof -
  have "\<forall>j\<le>4. rx env_silent j = None"
    by (simp add: env_silent_def no_frame_def)
  from C6_poll_timeout
      [where len = 2 and payload = "[1, 2]" and e = env_silent and t = example_node
         and k = 4 and header = "0x200" and filter_id = "0x200"
         and mode = CALL_AND_RESP and frame = False and b = idle_bus,
       OF _ _ _ _ this hyp_silent hyp_silent2]
  have "\<exists>b'. poll env_silent example_node 0x200 0x200 CALL_AND_RESP False [1, 2] 2 idle_bus =
            Some (Inr sentinel, b') \<and>
         filters b' = [(0x100, 0x7FF)]"
    by (simp add: env_silent_def example_node_def)
  moreover have "rx env_silent 0 = None \<and> rx env_silent 1 = None \<and> rx env_silent 2 = None \<and>
   rx env_silent 3 = None \<and> rx env_silent 4 = None \<and>
   millis env_silent 1 - millis env_silent 0 < timeout example_node \<and>
   millis env_silent 2 - millis env_silent 0 < timeout example_node \<and>
   millis env_silent 3 - millis env_silent 0 < timeout example_node \<and>
   millis env_silent 4 - millis env_silent 0 < timeout example_node \<and>
   timeout example_node \<le> millis env_silent 5 - millis env_silent 0 \<and>
   err_status env_silent = CAN_NO_ERROR"
    by (simp add: example_defs millis_def)
  ultimately show ?thesis by simp
qed

text \<open>
  Claim C8. The overload without a filter argument returns what \<open>poll\<close> returns with
  the header as filter, result and bus (filters and trace of calls) alike.
\<close>

theorem C8_poll_overload_delegates:
  "poll_overload e t header mode frame payload len b =
     poll e t header header mode frame payload len b"
  by (simp add: poll_overload_def)

theorem C8_poll_overload_delegates_witness:
  "poll_overload env_reply example_node 0x200 CALL_AND_RESP False [1, 2] 2 idle_bus =
     poll env_reply example_node 0x200 0x200 CALL_AND_RESP False [1, 2] 2 idle_bus \<and>
   poll_overload env_reply example_node 0x200 CALL_AND_RESP False [1, 2] 2 idle_bus =
     Some (Inr 42,
       \<lparr>filters = [(0x100, 0x7FF)],
        trace = [ClearFilters, AddFilter 0x200 0x7FF,
                 Transmit \<lparr>msg_id = 0x200, msg_rtr = False, msg_len = 2,
                           msg_data = [1, 2, 0, 0, 0, 0, 0, 0]\<rparr>,
                 ErrorStatus, Receive, Receive, Receive,
                 ClearFilters, AddFilter 0x100 0x7FF]\<rparr>)"
  using C8_poll_overload_delegates
    [where e = env_reply and t = example_node and header = "0x200" and mode = CALL_AND_RESP
       and frame = False and payload = "[1, 2]" and len = 2 and b = idle_bus]
    run_reply
  by simp

text \<open>
  Claim C9. As amended: in \<open>PASSIVE_POLL\<close> mode with a length in [0, 8], nothing is
  transmitted before the status check. If the bus reports no error, the calls on the
  channel are the filter installation, the status check, the receive attempts and the
  filter restoration; if it reports an error, the diagnostic frame is transmitted between
  the status check and the filter restoration.
\<close>

theorem C9_passive_poll_trace:
  assumes "mode = PASSIVE_POLL" "0 \<le> len" "len \<le> 8"
    and "poll e t header filter_id mode frame payload len b = Some (r, b')"
  shows "\<exists>n. trace b' = trace b @ [ClearFilters, AddFilter filter_id 0x7FF, ErrorStatus] @
            (if err_status e = CAN_NO_ERROR then replicate (Suc n) Receive
             else [Transmit (CANMessage_new\<lparr>msg_id := word_of_int (node_id t)\<rparr>)]) @
            [ClearFilters, AddFilter (word_of_int (node_id t)) 0x7FF]"
proof -
  from assms(1) modes_distinct have m: "mode \<noteq> CALL_AND_RESP" by simp
  define b2 where "b2 = (if mode = CALL_AND_RESP then transmit CANMessage_new (set_mask (sint filter_id) b)
               else set_mask (sint filter_id) b)"
  define b3 where "b3 = b2\<lparr>trace := trace b2 @ [ErrorStatus]\<rparr>"
  from m have p: "poll e t header filter_id mode frame payload len b =
           (if err_status e = CAN_NO_ERROR then wait_loop e t (millis e 0) 0 b3
            else Some (Inr sentinel,
                   set_mask_default t
                     (transmit (CANMessage_new\<lparr>msg_id := word_of_int (node_id t)\<rparr>) b3)))"
    by (intro poll_valid [OF assms(3) _ b2_def b3_def]) simp
  from m have t3: "trace b3 = trace b @ [ClearFilters, AddFilter filter_id 0x7FF, ErrorStatus]"
    using trace_after_request [OF b2_def b3_def] by simp
  show ?thesis
  proof (cases "err_status e = CAN_NO_ERROR")
    case True
    with p assms(4) have "wait_loop e t (millis e 0) 0 b3 = Some (r, b')" by simp
    from wait_loop_returns [OF this] t3 True show ?thesis by auto
  next
    case False
    with p assms(4) have "b' = set_mask_default t
         (transmit (CANMessage_new\<lparr>msg_id := word_of_int (node_id t)\<rparr>) b3)" by simp
    then have "trace b' = trace b3 @ [Transmit (CANMessage_new\<lparr>msg_id := word_of_int (node_id t)\<rparr>),
        ClearFilters, AddFilter (word_of_int (node_id t)) 0x7FF]"
      by (simp add: set_mask_default_def trace_set_mask transmit_def)
    with t3 False show ?thesis by simp
  qed
qed

theorem C9_passive_poll_trace_witness:
  "(0::int) \<le> 0 \<and> (0::int) \<le> 8 \<and>
   (\<exists>b' n.
      poll env_reply example_node 0x200 0x200 PASSIVE_POLL False [] 0 idle_bus =
        Some (Inr 42, b') \<and>
      trace b' = [ClearFilters, AddFilter 0x200 0x7FF, ErrorStatus] @
                 replicate (Suc n) Receive @ [ClearFilters, AddFilter 0x100 0x7FF]) \<and>
   (\<exists>b'.
      poll env_bus_off example_node 0x200 0x200 PASSIVE_POLL False [] 0 idle_bus =
        Some (Inr sentinel, b') \<and>
      trace b' = [ClearFilters, AddFilter 0x200 0x7FF, ErrorStatus,
                  Transmit (CANMessage_new\<lparr>msg_id := 0x100\<rparr>),
                  ClearFilters, AddFilter 0x100 0x7FF])"
  using C9_passive_poll_trace [OF _ _ _ run_passive_reply]
    C9_passive_poll_trace [OF _ _ _ run_passive_bus_off]
    run_passive_reply run_passive_bus_off
  by (simp add: env_reply_def env_bus_off_def example_node_def idle_bus_def)

text \<open>
  A passive call on a bus that reports an error does transmit: the diagnostic frame.
\<close>

theorem C9_passive_error_counterexample:
  "poll env_bus_off example_node 0x200 0x200 PASSIVE_POLL False [] 0 idle_bus =
     Some (Inr sentinel,
       \<lparr>filters = [(0x100, 0x7FF)],
        trace = [ClearFilters, AddFilter 0x200 0x7FF, ErrorStatus,
                 Transmit \<lparr>msg_id = 0x100, msg_rtr = False, msg_len = 0,
                           msg_data = [0, 0, 0, 0, 0, 0, 0, 0]\<rparr>,
                 ClearFilters, AddFilter 0x100 0x7FF]\<rparr>) \<and>
   Transmit \<lparr>msg_id = 0x100, msg_rtr = False, msg_len = 0,
             msg_data = [0, 0, 0, 0, 0, 0, 0, 0]\<rparr>
     \<in> set [ClearFilters, AddFilter 0x200 0x7FF, ErrorStatus,
              Transmit \<lparr>msg_id = 0x100, msg_rtr = False, msg_len = 0,
                        msg_data = [0, 0, 0, 0, 0, 0, 0, 0]\<rparr>,
              ClearFilters, AddFilter 0x100 0x7FF]"
  using run_passive_bus_off by simp

end
